theory Spec2Isabelle
  imports Complex_Main
begin

section \<open>Guiche Master backend: order ledger, key registry, analytics\<close>

text \<open>
  A shallow embedding of \<^verbatim>\<open>src/backend/server.js\<close> (the second, complete copy of the
  file, lines 479 to 1214, which carries the analytics endpoints).

  Conventions of the embedding.
  \<^item> The three process-wide collections \<^verbatim>\<open>pixKeys\<close>, \<^verbatim>\<open>orders\<close> and \<^verbatim>\<open>analytics\<close> are
    the fields of one state record; every route handler is a function from the state,
    the request and the values it draws from its environment to either an error or a
    response and the next state.
  \<^item> Request fields carry the types of the data model: strings, numbers, booleans. A
    field the handler tests with \<^verbatim>\<open>!x\<close> is a string for which the absent field and the
    empty string coincide (both are falsy and take the same branch); a field the handler
    tests against \<^verbatim>\<open>undefined\<close>, or reads with \<^verbatim>\<open>||\<close>, is an option.
  \<^item> Numbers are the reals that doubles denote: the handlers copy them, test them for
    zero and compare them. The one addition, \<^verbatim>\<open>totalRevenue += total\<close>, is the addition of
    the runtime, rounding included: it is a parameter of the handler that performs it.
  \<^item> An instant is the integer number of milliseconds since the epoch, the value of
    \<^verbatim>\<open>Date.now()\<close>; \<^verbatim>\<open>toISOString\<close> and \<^verbatim>\<open>new Date(iso)\<close> are inverse on these.
  \<^item> Every call of \<^verbatim>\<open>Date.now()\<close>, \<^verbatim>\<open>new Date()\<close>, \<^verbatim>\<open>Math.random()\<close> and \<^verbatim>\<open>uuidv4()\<close>
    is a separate input of the handler that makes it, in the order the handler makes
    them.
\<close>

subsection \<open>Data model\<close>

type_synonym instant = int

record pix_key =
  pk_id :: string
  pk_key :: string
  pk_type :: string
  pk_name :: string
  pk_active :: bool
  pk_createdAt :: instant
  pk_updatedAt :: "instant option"

text \<open>The object literal stored under \<^verbatim>\<open>order.pixKey\<close>: four strings copied out of the key.\<close>

record key_snapshot =
  ks_id :: string
  ks_key :: string
  ks_type :: string
  ks_name :: string

record customer =
  cu_name :: string
  cu_email :: string
  cu_cpf :: string
  cu_phone :: string

record order_item =
  oi_title :: string
  oi_unitPrice :: "real option"
  oi_quantity :: real

datatype order_status = Pending | Paid

record order =
  o_id :: string
  o_code :: string
  o_customer :: customer
  o_items :: "order_item list"
  o_total :: real
  o_pixKey :: key_snapshot
  o_status :: order_status
  o_createdAt :: instant
  o_expiresAt :: instant
  o_paidAt :: "instant option"

datatype conversion_status = Started | Completed

record page_view =
  pv_id :: string
  pv_page :: string
  pv_eventId :: "string option"
  pv_sessionId :: string
  pv_referrer :: "string option"
  pv_userAgent :: string
  pv_ip :: string
  pv_timestamp :: instant

record conversion =
  c_id :: string
  c_eventId :: "string option"
  c_sessionId :: string
  c_items :: "order_item list"
  c_total :: real
  c_status :: conversion_status
  c_timestamp :: instant
  c_orderId :: "string option"
  c_completedAt :: "instant option"

record click_counters =
  cl_ingressos :: nat
  cl_info :: nat
  cl_local :: nat
  cl_pdv :: nat
  cl_checkout :: nat

record event_stats =
  es_views :: nat
  es_uniqueViews :: "string set"
  es_clicks :: click_counters
  es_checkouts :: nat
  es_conversions :: nat
  es_totalRevenue :: real

text \<open>The object \<^verbatim>\<open>analytics\<close>; \<^verbatim>\<open>events\<close> is a dictionary from event id to statistics.\<close>

record analytics_db =
  an_pageViews :: "page_view list"
  an_events :: "string \<rightharpoonup> event_stats"
  an_conversions :: "conversion list"

record server_state =
  pixKeys :: "pix_key list"
  orders :: "order list"
  analytics :: analytics_db

text \<open>
  One constructor for each error response of the handlers, named after what it reports;
  \<open>http_status\<close> is the status code the handler sends with it.
\<close>

datatype error =
    MissingFields
  | CapacityExceeded
  | DuplicateKey
  | KeyNotFound
  | InvalidCustomer
  | EmptyCart
  | NoKeyAvailable
  | OrderNotFound
  | Unauthorized
  | InternalError

fun http_status :: "error \<Rightarrow> nat" where
  "http_status MissingFields = 400"
| "http_status CapacityExceeded = 400"
| "http_status DuplicateKey = 400"
| "http_status KeyNotFound = 404"
| "http_status InvalidCustomer = 400"
| "http_status EmptyCart = 400"
| "http_status NoKeyAvailable = 500"
| "http_status OrderNotFound = 404"
| "http_status Unauthorized = 401"
| "http_status InternalError = 500"

text \<open>The state at start-up: the seed key, no order, empty analytics.\<close>

definition seed_key :: "instant \<Rightarrow> pix_key" where
  "seed_key t0 =
     \<lparr>pk_id = ''1'', pk_key = ''a9d156cf-2e35-4728-b5de-5bd3191f0485'', pk_type = ''cpf'',
      pk_name = ''Empresa LTDA'', pk_active = True, pk_createdAt = t0, pk_updatedAt = None\<rparr>"

definition empty_analytics :: analytics_db where
  "empty_analytics = \<lparr>an_pageViews = [], an_events = Map.empty, an_conversions = []\<rparr>"

definition initial_state :: "instant \<Rightarrow> server_state" where
  "initial_state t0 = \<lparr>pixKeys = [seed_key t0], orders = [], analytics = empty_analytics\<rparr>"

subsection \<open>Array helpers\<close>

text \<open>\<^verbatim>\<open>Array.prototype.findIndex\<close>; the result \<^verbatim>\<open>-1\<close> is \<open>None\<close>.\<close>

fun findIndex :: "('a \<Rightarrow> bool) \<Rightarrow> 'a list \<Rightarrow> nat option" where
  "findIndex P [] = None"
| "findIndex P (x # xs) = (if P x then Some 0 else map_option Suc (findIndex P xs))"

text \<open>\<^verbatim>\<open>xs.splice(i, 1)\<close> for an index inside the array.\<close>

definition splice1 :: "nat \<Rightarrow> 'a list \<Rightarrow> 'a list" where
  "splice1 i xs = take i xs @ drop (Suc i) xs"

subsection \<open>KeyRegistry: the admin routes over \<^verbatim>\<open>pixKeys\<close>\<close>

text \<open>\<^verbatim>\<open>GET /api/admin/pix-keys\<close>: all keys, their number, the number of active ones.\<close>

definition get_pix_keys :: "server_state \<Rightarrow> pix_key list \<times> nat \<times> nat" where
  "get_pix_keys s = (pixKeys s, length (pixKeys s), length (filter pk_active (pixKeys s)))"

text \<open>
  \<^verbatim>\<open>POST /api/admin/pix-keys\<close>. The guards run in the order of the source: missing field,
  then capacity, then duplicate.
\<close>

record add_key_request =
  ak_key :: string
  ak_type :: string
  ak_name :: string

definition post_pix_keys ::
  "server_state \<Rightarrow> add_key_request \<Rightarrow> string \<Rightarrow> instant \<Rightarrow> error + (pix_key \<times> server_state)" where
  "post_pix_keys s req uuid now =
     (if ak_key req = [] \<or> ak_type req = [] \<or> ak_name req = [] then Inl MissingFields
      else if length (pixKeys s) \<ge> 5 then Inl CapacityExceeded
      else if list_ex (\<lambda>k. pk_key k = ak_key req) (pixKeys s) then Inl DuplicateKey
      else
        let newKey = \<lparr>pk_id = uuid, pk_key = ak_key req, pk_type = ak_type req,
                       pk_name = ak_name req, pk_active = True, pk_createdAt = now,
                       pk_updatedAt = None\<rparr>
        in Inr (newKey, s\<lparr>pixKeys := pixKeys s @ [newKey]\<rparr>))"

text \<open>
  \<^verbatim>\<open>PUT /api/admin/pix-keys/:id\<close>: the fields of the body that are not \<^verbatim>\<open>undefined\<close>
  overwrite those of the first key with that id; \<^verbatim>\<open>updatedAt\<close> is stamped.
\<close>

record update_key_request =
  uk_key :: "string option"
  uk_type :: "string option"
  uk_name :: "string option"
  uk_active :: "bool option"

definition merge_key :: "update_key_request \<Rightarrow> instant \<Rightarrow> pix_key \<Rightarrow> pix_key" where
  "merge_key req now k =
     (let k1 = (case uk_key req of None \<Rightarrow> k | Some v \<Rightarrow> k\<lparr>pk_key := v\<rparr>);
          k2 = (case uk_type req of None \<Rightarrow> k1 | Some v \<Rightarrow> k1\<lparr>pk_type := v\<rparr>);
          k3 = (case uk_name req of None \<Rightarrow> k2 | Some v \<Rightarrow> k2\<lparr>pk_name := v\<rparr>);
          k4 = (case uk_active req of None \<Rightarrow> k3 | Some v \<Rightarrow> k3\<lparr>pk_active := v\<rparr>)
      in k4\<lparr>pk_updatedAt := Some now\<rparr>)"

definition put_pix_key ::
  "server_state \<Rightarrow> string \<Rightarrow> update_key_request \<Rightarrow> instant \<Rightarrow> error + (pix_key \<times> server_state)" where
  "put_pix_key s ident req now =
     (case findIndex (\<lambda>k. pk_id k = ident) (pixKeys s) of
        None \<Rightarrow> Inl KeyNotFound
      | Some keyIndex \<Rightarrow>
          let k' = merge_key req now (pixKeys s ! keyIndex)
          in Inr (k', s\<lparr>pixKeys := (pixKeys s)[keyIndex := k']\<rparr>))"

text \<open>\<^verbatim>\<open>DELETE /api/admin/pix-keys/:id\<close>.\<close>

definition delete_pix_key :: "server_state \<Rightarrow> string \<Rightarrow> error + server_state" where
  "delete_pix_key s ident =
     (case findIndex (\<lambda>k. pk_id k = ident) (pixKeys s) of
        None \<Rightarrow> Inl KeyNotFound
      | Some keyIndex \<Rightarrow> Inr (s\<lparr>pixKeys := splice1 keyIndex (pixKeys s)\<rparr>))"

text \<open>
  \<^verbatim>\<open>getRandomPixKey\<close>. \<open>r\<close> is the value of \<^verbatim>\<open>Math.random()\<close>, a number of \<open>[0, 1)\<close>; the
  product is taken in the reals. An index outside the array reads \<^verbatim>\<open>undefined\<close>, which
  the caller treats like \<^verbatim>\<open>null\<close>.
\<close>

definition getRandomPixKey :: "pix_key list \<Rightarrow> real \<Rightarrow> pix_key option" where
  "getRandomPixKey keys r =
     (let activeKeys = filter pk_active keys in
      if length activeKeys = 0 then None
      else
        let randomIndex = \<lfloor>r * real (length activeKeys)\<rfloor> in
        if 0 \<le> randomIndex \<and> nat randomIndex < length activeKeys
        then Some (activeKeys ! nat randomIndex) else None)"

subsection \<open>OrderLedger: the payment routes over \<^verbatim>\<open>orders\<close>\<close>

text \<open>\<^verbatim>\<open>str.replace(/\D/g, '')\<close>: keep the ASCII digits.\<close>

definition stripNonDigits :: "string \<Rightarrow> string" where
  "stripNonDigits str = filter (\<lambda>c. c \<in> set ''0123456789'') str"

text \<open>\<^verbatim>\<open>a || b\<close> on optional numbers: \<^verbatim>\<open>undefined\<close> and \<^verbatim>\<open>0\<close> are falsy.\<close>

definition js_or :: "real option \<Rightarrow> real option \<Rightarrow> real option" where
  "js_or a b = (case a of None \<Rightarrow> b | Some x \<Rightarrow> if x = 0 then b else a)"

text \<open>\<^verbatim>\<open>str.substring(a, b)\<close> for \<open>a \<le> b\<close>, both clamped to the length of the string.\<close>

definition substring :: "nat \<Rightarrow> nat \<Rightarrow> string \<Rightarrow> string" where
  "substring a b str = take (b - a) (drop a str)"

definition upperChar :: "char \<Rightarrow> char" where
  "upperChar c =
     (case map_of (zip ''abcdefghijklmnopqrstuvwxyz'' ''ABCDEFGHIJKLMNOPQRSTUVWXYZ'') c of
        None \<Rightarrow> c
      | Some u \<Rightarrow> u)"

text \<open>\<^verbatim>\<open>toUpperCase\<close> on the strings of this program (digits, ASCII letters, \<^verbatim>\<open>.\<close> and \<^verbatim>\<open>-\<close>).\<close>

definition toUpperCase :: "string \<Rightarrow> string" where
  "toUpperCase str = map upperChar str"

definition digit36 :: "nat \<Rightarrow> char" where
  "digit36 d = ''0123456789abcdefghijklmnopqrstuvwxyz'' ! d"

text \<open>\<^verbatim>\<open>n.toString(36)\<close> for an integer \<open>n\<close>.\<close>

function nat36 :: "nat \<Rightarrow> string" where
  "nat36 n = (if n < 36 then [digit36 n] else nat36 (n div 36) @ [digit36 (n mod 36)])"
  by pat_completeness auto
termination
  by (relation "measure (\<lambda>n. n)") auto

declare nat36.simps [simp del]

definition toString36 :: "int \<Rightarrow> string" where
  "toString36 i = (if i < 0 then CHR ''-'' # nat36 (nat (- i)) else nat36 (nat i))"

text \<open>
  \<^verbatim>\<open>generateOrderCode\<close>. \<open>now\<close> is the value of its \<^verbatim>\<open>Date.now()\<close>; \<open>random36\<close> is the
  string \<^verbatim>\<open>Math.random().toString(36)\<close>, the rendering of a double of \<open>[0, 1)\<close> in base
  36 by the runtime: \<^verbatim>\<open>"0"\<close> for zero, otherwise \<^verbatim>\<open>"0."\<close> and as many digits as tell the
  double from its neighbours (\<^verbatim>\<open>"0.i"\<close> for one half).
\<close>

definition generateOrderCode :: "instant \<Rightarrow> string \<Rightarrow> string" where
  "generateOrderCode now random36 =
     (let prefix = ''GM'';
          timestamp = toUpperCase (toString36 now);
          random = toUpperCase (substring 2 6 random36)
      in prefix @ ''-'' @ timestamp @ ''-'' @ random)"

record customer_in =
  ci_name :: string
  ci_email :: string
  ci_cpf :: string
  ci_phone :: "string option"

record item_in =
  ii_title :: string
  ii_unitPrice :: "real option"
  ii_unit_price :: "real option"
  ii_quantity :: real

record payment_request =
  pr_customer :: "customer_in option"
  pr_items :: "item_in list"
  pr_total :: real

text \<open>
  What one call of \<^verbatim>\<open>POST /api/payment\<close> draws from its environment, in the order of
  the calls: \<^verbatim>\<open>Math.random()\<close> in \<^verbatim>\<open>getRandomPixKey\<close>, \<^verbatim>\<open>uuidv4()\<close>, \<^verbatim>\<open>Date.now()\<close> and
  \<^verbatim>\<open>Math.random().toString(36)\<close> in \<^verbatim>\<open>generateOrderCode\<close>, \<^verbatim>\<open>new Date()\<close> for
  \<^verbatim>\<open>createdAt\<close>, \<^verbatim>\<open>Date.now()\<close> for \<^verbatim>\<open>expiresAt\<close>.
\<close>

record payment_env =
  pe_keyRandom :: real
  pe_uuid :: string
  pe_codeNow :: instant
  pe_codeRandom36 :: string
  pe_createdNow :: instant
  pe_expiresNow :: instant

record payment_response =
  rs_id :: string
  rs_code :: string
  rs_status :: order_status
  rs_expiresAt :: instant
  rs_pix_key :: string
  rs_pix_type :: string
  rs_pix_name :: string
  rs_total :: real

definition normalize_item :: "item_in \<Rightarrow> order_item" where
  "normalize_item item =
     \<lparr>oi_title = ii_title item,
      oi_unitPrice = js_or (ii_unitPrice item) (ii_unit_price item),
      oi_quantity = ii_quantity item\<rparr>"

definition build_order :: "payment_request \<Rightarrow> customer_in \<Rightarrow> pix_key \<Rightarrow> payment_env \<Rightarrow> order" where
  "build_order req cust pixKey env =
     \<lparr>o_id = pe_uuid env,
      o_code = generateOrderCode (pe_codeNow env) (pe_codeRandom36 env),
      o_customer =
        \<lparr>cu_name = ci_name cust, cu_email = ci_email cust,
         cu_cpf = stripNonDigits (ci_cpf cust),
         cu_phone = (case ci_phone cust of None \<Rightarrow> [] | Some p \<Rightarrow> stripNonDigits p)\<rparr>,
      o_items = map normalize_item (pr_items req),
      o_total = pr_total req,
      o_pixKey = \<lparr>ks_id = pk_id pixKey, ks_key = pk_key pixKey, ks_type = pk_type pixKey,
                  ks_name = pk_name pixKey\<rparr>,
      o_status = Pending,
      o_createdAt = pe_createdNow env,
      o_expiresAt = pe_expiresNow env + 30 * 60 * 1000,
      o_paidAt = None\<rparr>"

text \<open>\<^verbatim>\<open>POST /api/payment\<close>.\<close>

definition post_payment ::
  "server_state \<Rightarrow> payment_request \<Rightarrow> payment_env \<Rightarrow> error + (payment_response \<times> server_state)" where
  "post_payment s req env =
     (case pr_customer req of
        None \<Rightarrow> Inl InvalidCustomer
      | Some cust \<Rightarrow>
          if ci_name cust = [] \<or> ci_email cust = [] \<or> ci_cpf cust = [] then Inl InvalidCustomer
          else if length (pr_items req) = 0 then Inl EmptyCart
          else
            (case getRandomPixKey (pixKeys s) (pe_keyRandom env) of
               None \<Rightarrow> Inl NoKeyAvailable
             | Some pixKey \<Rightarrow>
                 let order = build_order req cust pixKey env in
                 Inr (\<lparr>rs_id = o_id order, rs_code = o_code order, rs_status = o_status order,
                       rs_expiresAt = o_expiresAt order, rs_pix_key = pk_key pixKey,
                       rs_pix_type = pk_type pixKey, rs_pix_name = pk_name pixKey,
                       rs_total = o_total order\<rparr>,
                      s\<lparr>orders := orders s @ [order]\<rparr>)))"

text \<open>The predicate of both lookups: \<^verbatim>\<open>o.id === orderId || o.code === orderId\<close>.\<close>

definition matches :: "string \<Rightarrow> order \<Rightarrow> bool" where
  "matches orderId ord \<longleftrightarrow> o_id ord = orderId \<or> o_code ord = orderId"

record confirm_response =
  cf_id :: string
  cf_code :: string
  cf_status :: order_status
  cf_paidAt :: "instant option"

text \<open>
  \<^verbatim>\<open>POST /api/payment/:orderId/confirm\<close>: \<^verbatim>\<open>orders.find\<close> yields the first matching order
  object, which is then mutated in place; here, the first matching index is rewritten.
\<close>

definition post_payment_confirm ::
  "server_state \<Rightarrow> string \<Rightarrow> instant \<Rightarrow> error + (confirm_response \<times> server_state)" where
  "post_payment_confirm s orderId now =
     (case findIndex (matches orderId) (orders s) of
        None \<Rightarrow> Inl OrderNotFound
      | Some i \<Rightarrow>
          let order = (orders s ! i)\<lparr>o_status := Paid, o_paidAt := Some now\<rparr> in
          Inr (\<lparr>cf_id = o_id order, cf_code = o_code order, cf_status = o_status order,
                cf_paidAt = o_paidAt order\<rparr>,
               s\<lparr>orders := (orders s)[i := order]\<rparr>))"

record order_view =
  ov_id :: string
  ov_code :: string
  ov_status :: order_status
  ov_total :: real
  ov_customer_name :: string
  ov_customer_email :: string
  ov_items :: "order_item list"
  ov_createdAt :: instant
  ov_expiresAt :: instant
  ov_paidAt :: "instant option"

definition view_of :: "order \<Rightarrow> order_view" where
  "view_of ord =
     \<lparr>ov_id = o_id ord, ov_code = o_code ord, ov_status = o_status ord, ov_total = o_total ord,
      ov_customer_name = cu_name (o_customer ord), ov_customer_email = cu_email (o_customer ord),
      ov_items = o_items ord, ov_createdAt = o_createdAt ord, ov_expiresAt = o_expiresAt ord,
      ov_paidAt = o_paidAt ord\<rparr>"

text \<open>\<^verbatim>\<open>GET /api/order/:orderId\<close>.\<close>

definition get_order :: "server_state \<Rightarrow> string \<Rightarrow> error + order_view" where
  "get_order s orderId =
     (case find (matches orderId) (orders s) of
        None \<Rightarrow> Inl OrderNotFound
      | Some ord \<Rightarrow> Inr (view_of ord))"

subsection \<open>AnalyticsAggregator: the analytics routes over \<^verbatim>\<open>analytics\<close>\<close>

definition fresh_stats :: event_stats where
  "fresh_stats =
     \<lparr>es_views = 0, es_uniqueViews = {},
      es_clicks = \<lparr>cl_ingressos = 0, cl_info = 0, cl_local = 0, cl_pdv = 0, cl_checkout = 0\<rparr>,
      es_checkouts = 0, es_conversions = 0, es_totalRevenue = 0\<rparr>"

text \<open>
  \<^verbatim>\<open>analytics.events\<close> is a plain object, so reading \<^verbatim>\<open>analytics.events[eventId]\<close> falls
  back on \<^verbatim>\<open>Object.prototype\<close> when the object has no property of its own under that
  name. These are the names \<^verbatim>\<open>Object.prototype\<close> defines; each reads as a function or an
  object, which is truthy.
\<close>

definition inherited :: "string \<Rightarrow> bool" where
  "inherited name \<longleftrightarrow>
     name \<in> set [''constructor'', ''__defineGetter__'', ''__defineSetter__'', ''hasOwnProperty'',
                 ''__lookupGetter__'', ''__lookupSetter__'', ''isPrototypeOf'',
                 ''propertyIsEnumerable'', ''toString'', ''valueOf'', ''__proto__'',
                 ''toLocaleString'']"

text \<open>
  \<^verbatim>\<open>initEventAnalytics\<close>. The map holds the properties of the object's own. The guard
  \<^verbatim>\<open>!analytics.events[eventId]\<close> is false for an own entry and for an inherited name, and
  then nothing is created.
\<close>

definition initEventAnalytics :: "string \<Rightarrow> (string \<rightharpoonup> event_stats) \<Rightarrow> (string \<rightharpoonup> event_stats)" where
  "initEventAnalytics eventId evs =
     (case evs eventId of
        Some _ \<Rightarrow> evs
      | None \<Rightarrow> if inherited eventId then evs else evs(eventId \<mapsto> fresh_stats))"


text \<open>
  In the three routes below, \<^verbatim>\<open>if (eventId)\<close> holds when the id is there and is not the
  empty string.
\<close>

record pageview_request =
  vr_page :: string
  vr_eventId :: "string option"
  vr_sessionId :: string
  vr_referrer :: "string option"
  vr_userAgent :: string
  vr_ip :: string

text \<open>
  \<^verbatim>\<open>POST /api/analytics/pageview\<close>. The page view is pushed first. For an inherited name
  \<^verbatim>\<open>uniqueViews\<close> reads \<^verbatim>\<open>undefined\<close> and \<^verbatim>\<open>.add\<close> throws; the handler catches and answers
  500, the page view staying in the list. The first component is the error answered, if
  any.
\<close>

definition post_analytics_pageview ::
  "server_state \<Rightarrow> pageview_request \<Rightarrow> string \<Rightarrow> instant \<Rightarrow> error option \<times> server_state" where
  "post_analytics_pageview s req uuid now =
     (let a = analytics s;
          pageView = \<lparr>pv_id = uuid, pv_page = vr_page req, pv_eventId = vr_eventId req,
                      pv_sessionId = vr_sessionId req, pv_referrer = vr_referrer req,
                      pv_userAgent = vr_userAgent req, pv_ip = vr_ip req, pv_timestamp = now\<rparr>;
          pushed = a\<lparr>an_pageViews := an_pageViews a @ [pageView]\<rparr>
      in case vr_eventId req of
           None \<Rightarrow> (None, s\<lparr>analytics := pushed\<rparr>)
         | Some e \<Rightarrow>
             if e = [] then (None, s\<lparr>analytics := pushed\<rparr>)
             else
               let evs = initEventAnalytics e (an_events a) in
               (case evs e of
                  None \<Rightarrow> (Some InternalError, s\<lparr>analytics := pushed\<rparr>)
                | Some st \<Rightarrow>
                    (None,
                     s\<lparr>analytics := pushed\<lparr>an_events :=
                         evs(e \<mapsto> st\<lparr>es_views := es_views st + 1,
                                      es_uniqueViews :=
                                        insert (vr_sessionId req) (es_uniqueViews st)\<rparr>)\<rparr>\<rparr>)))"







record traffic_bucket =
  tb_hour :: nat
  tb_views :: nat

text \<open>
  The \<^verbatim>\<open>trafficByHour\<close> expression of the dashboard. \<open>getHours\<close> is \<^verbatim>\<open>Date.prototype.getHours\<close>,
  the hour of the day of an instant in the time zone of the process.
\<close>

definition trafficByHour :: "(instant \<Rightarrow> nat) \<Rightarrow> page_view list \<Rightarrow> instant \<Rightarrow> traffic_bucket list" where
  "trafficByHour getHours pvs now =
     (let last24h = now - 24 * 60 * 60 * 1000 in
      rev (map (\<lambda>i.
             let hour = getHours (now - int i * 60 * 60 * 1000);
                 count = length (filter (\<lambda>pv. pv_timestamp pv > last24h
                                            \<and> getHours (pv_timestamp pv) = hour) pvs)
             in \<lparr>tb_hour = hour, tb_views = count\<rparr>) [0..<24]))"

text \<open>\<open>getHours\<close> of a process whose time zone is UTC.\<close>

definition utcHours :: "instant \<Rightarrow> nat" where
  "utcHours t = nat ((t div 3600000) mod 24)"

text \<open>
  The fields of the dashboard that are counts and lists; the rates, which are formatted
  floating-point quotients, the per-event table and the page table are left out.
\<close>

record dashboard =
  db_totalPageViews :: nat
  db_uniqueSessions :: nat
  db_totalOrders :: nat
  db_totalCheckouts :: nat
  db_totalConversions :: nat
  db_recentConversions :: "conversion list"
  db_trafficByHour :: "traffic_bucket list"

text \<open>
  \<^verbatim>\<open>GET /api/analytics/dashboard\<close>. \<open>secret\<close> is \<^verbatim>\<open>ANALYTICS_SECRET\<close>, \<open>key\<close> the query
  parameter, \<open>now\<close> the one \<^verbatim>\<open>new Date()\<close> the traffic histogram is built from.
\<close>

definition get_analytics_dashboard ::
  "string \<Rightarrow> (instant \<Rightarrow> nat) \<Rightarrow> server_state \<Rightarrow> string option \<Rightarrow> instant \<Rightarrow> error + dashboard" where
  "get_analytics_dashboard secret getHours s key now =
     (if key \<noteq> Some secret then Inl Unauthorized
      else
        let a = analytics s;
            completed = filter (\<lambda>c. c_status c = Completed) (an_conversions a)
        in Inr \<lparr>db_totalPageViews = length (an_pageViews a),
                db_uniqueSessions = length (remdups (map pv_sessionId (an_pageViews a))),
                db_totalOrders = length (orders s),
                db_totalCheckouts = length (filter (\<lambda>c. c_status c = Started) (an_conversions a)),
                db_totalConversions = length completed,
                db_recentConversions = rev (drop (length completed - 10) completed),
                db_trafficByHour = trafficByHour getHours (an_pageViews a) now\<rparr>)"

subsection \<open>The registry invariant and example states\<close>

text \<open>Key-strings pairwise distinct, at most five keys.\<close>

definition registry_inv :: "server_state \<Rightarrow> bool" where
  "registry_inv s \<longleftrightarrow> distinct (map pk_key (pixKeys s)) \<and> length (pixKeys s) \<le> 5"

definition add_req :: "string \<Rightarrow> string \<Rightarrow> string \<Rightarrow> add_key_request" where
  "add_req k t n = \<lparr>ak_key = k, ak_type = t, ak_name = n\<rparr>"

definition rekey :: "string \<Rightarrow> update_key_request" where
  "rekey k = \<lparr>uk_key = Some k, uk_type = None, uk_name = None, uk_active = None\<rparr>"

text \<open>The state after one key has been added to the seed key.\<close>

definition two_keys :: server_state where
  "two_keys =
     \<lparr>pixKeys =
        [seed_key 0,
         \<lparr>pk_id = ''u2'', pk_key = ''k2'', pk_type = ''email'', pk_name = ''B'',
          pk_active = True, pk_createdAt = 1, pk_updatedAt = None\<rparr>],
      orders = [], analytics = empty_analytics\<rparr>"

text \<open>The state after four keys have been added to the seed key.\<close>

definition full_registry :: server_state where
  "full_registry =
     \<lparr>pixKeys =
        [seed_key 0,
         \<lparr>pk_id = ''u2'', pk_key = ''k2'', pk_type = ''email'', pk_name = ''B'',
          pk_active = True, pk_createdAt = 1, pk_updatedAt = None\<rparr>,
         \<lparr>pk_id = ''u3'', pk_key = ''k3'', pk_type = ''email'', pk_name = ''C'',
          pk_active = True, pk_createdAt = 2, pk_updatedAt = None\<rparr>,
         \<lparr>pk_id = ''u4'', pk_key = ''k4'', pk_type = ''email'', pk_name = ''D'',
          pk_active = True, pk_createdAt = 3, pk_updatedAt = None\<rparr>,
         \<lparr>pk_id = ''u5'', pk_key = ''k5'', pk_type = ''email'', pk_name = ''E'',
          pk_active = True, pk_createdAt = 4, pk_updatedAt = None\<rparr>],
      orders = [], analytics = empty_analytics\<rparr>"

subsection \<open>Reading a base-36 numeral, sums of line items, example requests\<close>

text \<open>
  The value of a numeral in upper-case base 36, the inverse against which the timestamp
  part of an order code is judged.
\<close>

definition upper_digits :: string where
  "upper_digits = ''0123456789ABCDEFGHIJKLMNOPQRSTUVWXYZ''"

definition value36 :: "char \<Rightarrow> nat" where
  "value36 c = (case findIndex (\<lambda>d. d = c) upper_digits of None \<Rightarrow> 0 | Some i \<Rightarrow> i)"

definition readNat36 :: "string \<Rightarrow> nat" where
  "readNat36 str = foldl (\<lambda>acc c. acc * 36 + value36 c) 0 str"

definition read36 :: "string \<Rightarrow> int" where
  "read36 str =
     (case str of
        [] \<Rightarrow> 0
      | c # cs \<Rightarrow> if c = CHR ''-'' then - int (readNat36 cs) else int (readNat36 str))"

text \<open>
  The sum of unit price times quantity over the stored items; \<open>None\<close> when a unit price
  is \<^verbatim>\<open>undefined\<close>.
\<close>

definition items_sum :: "order_item list \<Rightarrow> real option" where
  "items_sum its =
     (if list_ex (\<lambda>it. oi_unitPrice it = None) its then None
      else Some (sum_list (map (\<lambda>it. (case oi_unitPrice it of None \<Rightarrow> 0 | Some p \<Rightarrow> p)
                                     * oi_quantity it) its)))"

text \<open>A customer, line items, a request and the draws of one call, for the examples.\<close>

definition ana :: customer_in where
  "ana = \<lparr>ci_name = ''Ana'', ci_email = ''ana@example.com'', ci_cpf = ''123.456.789-09'',
          ci_phone = Some ''(11) 91234-5678''\<rparr>"

definition item :: "string \<Rightarrow> real option \<Rightarrow> real option \<Rightarrow> real \<Rightarrow> item_in" where
  "item t p q n = \<lparr>ii_title = t, ii_unitPrice = p, ii_unit_price = q, ii_quantity = n\<rparr>"

definition cart :: "item_in list \<Rightarrow> real \<Rightarrow> payment_request" where
  "cart its t = \<lparr>pr_customer = Some ana, pr_items = its, pr_total = t\<rparr>"

definition draws :: "string \<Rightarrow> instant \<Rightarrow> string \<Rightarrow> instant \<Rightarrow> instant \<Rightarrow> payment_env" where
  "draws u t r c e =
     \<lparr>pe_keyRandom = 1 / 2, pe_uuid = u, pe_codeNow = t, pe_codeRandom36 = r,
      pe_createdNow = c, pe_expiresNow = e\<rparr>"

text \<open>The four fields an order copies out of its key.\<close>

definition snapshot_of :: "pix_key \<Rightarrow> key_snapshot" where
  "snapshot_of k = \<lparr>ks_id = pk_id k, ks_key = pk_key k, ks_type = pk_type k, ks_name = pk_name k\<rparr>"

text \<open>The order appended by a successful call of \<^verbatim>\<open>POST /api/payment\<close>.\<close>

definition new_order :: "error + (payment_response \<times> server_state) \<Rightarrow> order" where
  "new_order r = last (orders (snd (projr r)))"

subsection \<open>The histogram as the specification words it, example analytics\<close>

text \<open>
  Bucket \<open>i\<close> in the words of the specification: its hour is the hour of the day of
  \<open>now\<close> minus \<open>i\<close> hours; its count is the number of page views whose timestamp is
  strictly after \<open>now\<close> minus 24 hours and whose hour of the day is that hour.
\<close>

definition spec_bucket :: "(instant \<Rightarrow> nat) \<Rightarrow> page_view list \<Rightarrow> instant \<Rightarrow> nat \<Rightarrow> traffic_bucket" where
  "spec_bucket getHours pvs now i =
     \<lparr>tb_hour = getHours (now - int i * 3600000),
      tb_views = length (filter (\<lambda>pv. now - 86400000 < pv_timestamp pv
                                  \<and> getHours (pv_timestamp pv) = getHours (now - int i * 3600000)) pvs)\<rparr>"

text \<open>Two page views of one session, recorded at the given instants.\<close>

definition view_at :: "string \<Rightarrow> instant \<Rightarrow> page_view" where
  "view_at u t =
     \<lparr>pv_id = u, pv_page = ''/evento'', pv_eventId = None, pv_sessionId = ''s1'',
      pv_referrer = None, pv_userAgent = ''curl'', pv_ip = ''::1'', pv_timestamp = t\<rparr>"

definition view_req :: pageview_request where
  "view_req = \<lparr>vr_page = ''/evento'', vr_eventId = None, vr_sessionId = ''s1'',
               vr_referrer = None, vr_userAgent = ''curl'', vr_ip = ''::1''\<rparr>"

definition two_views :: server_state where
  "two_views =
     snd (post_analytics_pageview
            (snd (post_analytics_pageview (initial_state 0) view_req ''v1'' 125100000))
            view_req ''v2'' 209700000)"






subsection \<open>Runs of registry operations, example ledgers\<close>

text \<open>
  A mutating request to the registry, and its effect on the state: that of the route when
  it succeeds, none when it answers with an error.
\<close>

datatype registry_op =
    Add add_key_request string instant
  | Update string update_key_request instant
  | Remove string

fun apply_registry_op :: "server_state \<Rightarrow> registry_op \<Rightarrow> server_state" where
  "apply_registry_op s (Add req uuid now) =
     (case post_pix_keys s req uuid now of Inl e \<Rightarrow> s | Inr (k, s') \<Rightarrow> s')"
| "apply_registry_op s (Update ident req now) =
     (case put_pix_key s ident req now of Inl e \<Rightarrow> s | Inr (k, s') \<Rightarrow> s')"
| "apply_registry_op s (Remove ident) =
     (case delete_pix_key s ident of Inl e \<Rightarrow> s | Inr s' \<Rightarrow> s')"

text \<open>
  The ledger after one order, and after a second order placed in the same millisecond
  with the same random draw.
\<close>

definition example_order :: "string \<Rightarrow> item_in list \<Rightarrow> real \<Rightarrow> instant \<Rightarrow> instant \<Rightarrow> order" where
  "example_order u its t c e =
     \<lparr>o_id = u, o_code = ''GM-RS-I'',
      o_customer = \<lparr>cu_name = ''Ana'', cu_email = ''ana@example.com'',
                     cu_cpf = ''12345678909'', cu_phone = ''11912345678''\<rparr>,
      o_items = map normalize_item its, o_total = t,
      o_pixKey = snapshot_of (seed_key 0), o_status = Pending,
      o_createdAt = c, o_expiresAt = e + 1800000, o_paidAt = None\<rparr>"

definition one_order :: server_state where
  "one_order =
     snd (projr (post_payment (initial_state 0) (cart [item ''Pista'' (Some 100) None 2] 200)
                   (draws ''o1'' 1000 ''0.i'' 1000 1000)))"

definition two_orders :: server_state where
  "two_orders =
     snd (projr (post_payment one_order (cart [item ''Pista'' (Some 100) None 1] 100)
                   (draws ''o2'' 1000 ''0.i'' 1000 1000)))"

text \<open>An update that replaces every field of a key.\<close>

definition retired :: update_key_request where
  "retired = \<lparr>uk_key = Some ''outra-chave'', uk_type = Some ''email'', uk_name = Some ''Outra'',
              uk_active = Some False\<rparr>"

text \<open>The two assignments of the confirm route.\<close>

definition paid :: "instant \<Rightarrow> order \<Rightarrow> order" where
  "paid now ord = ord\<lparr>o_status := Paid, o_paidAt := Some now\<rparr>"

section \<open>Properties\<close>

subsection \<open>Array helpers\<close>

lemma findIndex_Some:
  "findIndex P xs = Some i \<Longrightarrow> i < length xs \<and> P (xs ! i) \<and> (\<forall>j<i. \<not> P (xs ! j))"
proof (induction xs arbitrary: i)
  case Nil
  then show ?case by simp
next
  case (Cons x xs)
  show ?case
  proof (cases "P x")
    case True
    with Cons.prems show ?thesis by simp
  next
    case False
    with Cons.prems obtain j where j: "findIndex P xs = Some j" "i = Suc j" by auto
    from Cons.IH[OF j(1)] False j(2) show ?thesis by (auto simp: less_Suc_eq_0_disj)
  qed
qed



lemma find_findIndex: "find P xs = map_option (\<lambda>i. xs ! i) (findIndex P xs)"
  by (induction xs) (auto simp: option.map_comp comp_def)

lemma distinct_splice1:
  assumes "distinct xs"
  shows "distinct (splice1 i xs)"
proof -
  have "distinct (take i xs @ drop i xs)" using assms by simp
  then have d: "distinct (take i xs)" "set (take i xs) \<inter> set (drop i xs) = {}"
    by (simp_all only: distinct_append)
  have sub: "set (drop (Suc i) xs) \<subseteq> set (drop i xs)"
    by (simp add: set_drop_subset_set_drop)
  have "distinct (drop (Suc i) xs)" using assms by simp
  with d sub show ?thesis
    unfolding splice1_def by (auto simp: distinct_append)
qed

lemma map_splice1: "map f (splice1 i xs) = splice1 i (map f xs)"
  by (simp add: splice1_def take_map drop_map)

subsection \<open>KeyRegistry\<close>

lemma two_keys_reachable:
  "post_pix_keys (initial_state 0) (add_req ''k2'' ''email'' ''B'') ''u2'' 1
     = Inr (last (pixKeys two_keys), two_keys)"
  by (simp add: post_pix_keys_def two_keys_def add_req_def initial_state_def seed_key_def Let_def)

lemma full_registry_reachable:
  "(case post_pix_keys (initial_state 0) (add_req ''k2'' ''email'' ''B'') ''u2'' 1 of
      Inl e \<Rightarrow> False
    | Inr (k2, s2) \<Rightarrow>
        (case post_pix_keys s2 (add_req ''k3'' ''email'' ''C'') ''u3'' 2 of
           Inl e \<Rightarrow> False
         | Inr (k3, s3) \<Rightarrow>
             (case post_pix_keys s3 (add_req ''k4'' ''email'' ''D'') ''u4'' 3 of
                Inl e \<Rightarrow> False
              | Inr (k4, s4) \<Rightarrow>
                  post_pix_keys s4 (add_req ''k5'' ''email'' ''E'') ''u5'' 4
                    = Inr (last (pixKeys full_registry), full_registry))))"
  by (simp add: post_pix_keys_def full_registry_def add_req_def initial_state_def seed_key_def
      Let_def)

text \<open>
  Claim C1, as the code has it. For a request with all three fields, the capacity error
  is returned exactly when the registry holds five keys or more, whether or not the
  key-string is registered; the duplicate-key error is returned exactly when the registry
  holds fewer than five keys and the key-string is registered.
\<close>

theorem post_pix_keys_guard_order:
  assumes "ak_key req \<noteq> []" and "ak_type req \<noteq> []" and "ak_name req \<noteq> []"
  shows "(post_pix_keys s req uuid now = Inl CapacityExceeded \<longleftrightarrow> 5 \<le> length (pixKeys s))
       \<and> (post_pix_keys s req uuid now = Inl DuplicateKey \<longleftrightarrow>
            length (pixKeys s) < 5 \<and> ak_key req \<in> pk_key ` set (pixKeys s))"
  using assms by (force simp: post_pix_keys_def list_ex_iff Let_def)

text \<open>Both errors at concrete registries: a full one, and the start-up one.\<close>

theorem post_pix_keys_guard_order_witness:
  "post_pix_keys full_registry (add_req ''k2'' ''email'' ''B'') ''u6'' 5 = Inl CapacityExceeded
   \<and> post_pix_keys (initial_state 0)
         (add_req ''a9d156cf-2e35-4728-b5de-5bd3191f0485'' ''cpf'' ''X'') ''u2'' 1
       = Inl DuplicateKey"
  using post_pix_keys_guard_order [of "add_req ''k2'' ''email'' ''B''" full_registry "''u6''" 5]
    post_pix_keys_guard_order
      [of "add_req ''a9d156cf-2e35-4728-b5de-5bd3191f0485'' ''cpf'' ''X''" "initial_state 0"
          "''u2''" 1]
  by (simp add: add_req_def full_registry_def initial_state_def seed_key_def)

text \<open>
  Claim C1 as stated fails: with five keys registered, adding the key-string of the
  second one is answered with the capacity error, not the duplicate-key error.
\<close>

theorem duplicate_at_capacity_counterexample:
  "length (pixKeys full_registry) = 5
   \<and> list_ex (\<lambda>k. pk_key k = ''k2'') (pixKeys full_registry)
   \<and> post_pix_keys full_registry (add_req ''k2'' ''email'' ''B'') ''u6'' 5 = Inl CapacityExceeded
   \<and> post_pix_keys full_registry (add_req ''k2'' ''email'' ''B'') ''u6'' 5 \<noteq> Inl DuplicateKey"
  by (simp add: post_pix_keys_def full_registry_def add_req_def)

text \<open>Adding and removing keep the invariant; updating keeps the number of keys.\<close>

lemma post_pix_keys_inv:
  assumes "registry_inv s" and "post_pix_keys s req uuid now = Inr (k, s')"
  shows "registry_inv s'"
proof -
  from assms(2) have len: "length (pixKeys s) < 5"
    and fresh: "\<not> list_ex (\<lambda>k. pk_key k = ak_key req) (pixKeys s)"
    and s': "pixKeys s' = pixKeys s @ [k]" and k: "pk_key k = ak_key req"
    by (auto simp: post_pix_keys_def Let_def split: if_splits)
  from fresh have "ak_key req \<notin> set (map pk_key (pixKeys s))"
    by (auto simp: list_ex_iff)
  with assms(1) len show ?thesis
    by (simp add: registry_inv_def s' k)
qed

lemma delete_pix_key_inv:
  assumes "registry_inv s" and "delete_pix_key s ident = Inr s'"
  shows "registry_inv s'"
proof -
  from assms(2) obtain i where s': "pixKeys s' = splice1 i (pixKeys s)"
    by (auto simp: delete_pix_key_def split: option.splits)
  have "length (splice1 i (pixKeys s)) \<le> length (pixKeys s)"
    by (simp add: splice1_def)
  with assms(1) show ?thesis
    by (simp add: registry_inv_def s' map_splice1 distinct_splice1)
qed

lemma put_pix_key_length:
  assumes "put_pix_key s ident req now = Inr (k, s')"
  shows "length (pixKeys s') = length (pixKeys s)"
  using assms by (auto simp: put_pix_key_def Let_def split: option.splits)

text \<open>
  Claim C2 fails on the update route. From a registry that satisfies the invariant, the
  update of the second key with the key-string of the seed key is accepted and leaves two
  keys with one key-string: the route has no check like the one of the add route.
\<close>

theorem put_pix_key_duplicates_key_string:
  "registry_inv two_keys
   \<and> map_sum id (map pk_key \<circ> pixKeys \<circ> snd)
         (put_pix_key two_keys ''u2'' (rekey ''a9d156cf-2e35-4728-b5de-5bd3191f0485'') 2)
       = Inr [''a9d156cf-2e35-4728-b5de-5bd3191f0485'', ''a9d156cf-2e35-4728-b5de-5bd3191f0485'']
   \<and> \<not> registry_inv
         (snd (projr (put_pix_key two_keys ''u2''
                        (rekey ''a9d156cf-2e35-4728-b5de-5bd3191f0485'') 2)))"
  by (simp add: registry_inv_def two_keys_def put_pix_key_def merge_key_def rekey_def
      seed_key_def Let_def)

subsection \<open>OrderLedger: creation\<close>

lemma digit36_upper:
  assumes "d < 36"
  shows "value36 (upperChar (digit36 d)) = d \<and> upperChar (digit36 d) \<in> set upper_digits"
proof -
  from assms
  have "d = 0 \<or> d = 1 \<or> d = 2 \<or> d = 3 \<or> d = 4 \<or> d = 5
        \<or> d = 6 \<or> d = 7 \<or> d = 8 \<or> d = 9 \<or> d = 10 \<or> d = 11
        \<or> d = 12 \<or> d = 13 \<or> d = 14 \<or> d = 15 \<or> d = 16 \<or> d = 17
        \<or> d = 18 \<or> d = 19 \<or> d = 20 \<or> d = 21 \<or> d = 22 \<or> d = 23
        \<or> d = 24 \<or> d = 25 \<or> d = 26 \<or> d = 27 \<or> d = 28 \<or> d = 29
        \<or> d = 30 \<or> d = 31 \<or> d = 32 \<or> d = 33 \<or> d = 34 \<or> d = 35"
    by arith
  then show ?thesis
    by (elim disjE) (simp_all add: value36_def upperChar_def digit36_def upper_digits_def)
qed

lemma getRandomPixKey_active:
  assumes "getRandomPixKey keys r = Some k"
  shows "k \<in> set keys \<and> pk_active k"
proof -
  let ?act = "filter pk_active keys"
  from assms obtain i where "i < length ?act" "k = ?act ! i"
    by (auto simp: getRandomPixKey_def Let_def split: if_splits)
  then have "k \<in> set ?act" using nth_mem by blast
  then show ?thesis by simp
qed

lemma getRandomPixKey_some:
  assumes "\<exists>k\<in>set keys. pk_active k" and "0 \<le> r" and "r < 1"
  shows "\<exists>k. getRandomPixKey keys r = Some k"
proof -
  let ?n = "length (filter pk_active keys)"
  from assms(1) have "filter pk_active keys \<noteq> []" by (auto simp: filter_empty_conv)
  then have n: "0 < ?n" by simp
  from assms(2) have lo: "0 \<le> \<lfloor>r * real ?n\<rfloor>" by simp
  from assms(3) n have "r * real ?n < real ?n" by simp
  then have "\<lfloor>r * real ?n\<rfloor> < int ?n" by (simp add: floor_less_iff)
  with lo have "nat \<lfloor>r * real ?n\<rfloor> < ?n" by linarith
  with lo n show ?thesis by (simp add: getRandomPixKey_def Let_def)
qed

lemma post_payment_Inr:
  assumes "post_payment s req env = Inr (resp, s')"
  shows "\<exists>cust pixKey. pr_customer req = Some cust
           \<and> getRandomPixKey (pixKeys s) (pe_keyRandom env) = Some pixKey
           \<and> s' = s\<lparr>orders := orders s @ [build_order req cust pixKey env]\<rparr>
           \<and> resp = \<lparr>rs_id = pe_uuid env,
                      rs_code = generateOrderCode (pe_codeNow env) (pe_codeRandom36 env),
                      rs_status = Pending, rs_expiresAt = pe_expiresNow env + 30 * 60 * 1000,
                      rs_pix_key = pk_key pixKey, rs_pix_type = pk_type pixKey,
                      rs_pix_name = pk_name pixKey, rs_total = pr_total req\<rparr>"
proof (cases "pr_customer req")
  case None
  with assms show ?thesis by (simp add: post_payment_def)
next
  case (Some cust)
  note cust = this
  show ?thesis
  proof (cases "getRandomPixKey (pixKeys s) (pe_keyRandom env)")
    case None
    with assms cust show ?thesis by (simp add: post_payment_def split: if_splits)
  next
    case (Some pixKey)
    with assms cust show ?thesis
      by (simp add: post_payment_def Let_def build_order_def split: if_splits)
  qed
qed

lemma readNat36_snoc: "readNat36 (str @ [c]) = readNat36 str * 36 + value36 c"
  by (simp add: readNat36_def)

lemma readNat36_nat36: "readNat36 (toUpperCase (nat36 n)) = n"
proof (induction n rule: nat36.induct)
  case (1 n)
  show ?case
  proof (cases "n < 36")
    case True
    then show ?thesis
      by (simp add: nat36.simps[of n] toUpperCase_def readNat36_def digit36_upper)
  next
    case False
    have "n mod 36 < 36" by simp
    then have d: "value36 (upperChar (digit36 (n mod 36))) = n mod 36"
      by (simp only: digit36_upper)
    have "toUpperCase (nat36 n) = toUpperCase (nat36 (n div 36)) @ [upperChar (digit36 (n mod 36))]"
      using False by (simp add: nat36.simps[of n] toUpperCase_def)
    then show ?thesis
      using "1.IH"[OF False] d by (simp add: readNat36_snoc)
  qed
qed

lemma nat36_digits: "set (toUpperCase (nat36 n)) \<subseteq> set upper_digits \<and> nat36 n \<noteq> []"
proof (induction n rule: nat36.induct)
  case (1 n)
  show ?case
  proof (cases "n < 36")
    case True
    then show ?thesis
      by (simp add: nat36.simps[of n] toUpperCase_def digit36_upper)
  next
    case False
    have "n mod 36 < 36" by simp
    then have d: "upperChar (digit36 (n mod 36)) \<in> set upper_digits"
      by (simp only: digit36_upper)
    have "toUpperCase (nat36 n) = toUpperCase (nat36 (n div 36)) @ [upperChar (digit36 (n mod 36))]"
      using False by (simp add: nat36.simps[of n] toUpperCase_def)
    moreover have "nat36 n \<noteq> []" using False by (simp add: nat36.simps[of n])
    ultimately show ?thesis
      using "1.IH"[OF False] d by simp
  qed
qed

lemma read36_toString36: "read36 (toUpperCase (toString36 i)) = i"
proof (cases "i < 0")
  case True
  have "upperChar CHR ''-'' = CHR ''-''" by (simp add: upperChar_def)
  with True show ?thesis
    by (simp add: toString36_def toUpperCase_def read36_def readNat36_nat36[unfolded toUpperCase_def])
next
  case False
  obtain c cs where cs: "toUpperCase (nat36 (nat i)) = c # cs"
    using nat36_digits[of "nat i"] by (cases "toUpperCase (nat36 (nat i))") (auto simp: toUpperCase_def)
  with nat36_digits[of "nat i"] have "c \<in> set upper_digits" by auto
  then have "c \<noteq> CHR ''-''" by (auto simp: upper_digits_def)
  with False cs readNat36_nat36[of "nat i"] show ?thesis
    by (simp add: toString36_def read36_def)
qed

lemma length_toUpperCase: "length (toUpperCase str) = length str"
  by (simp add: toUpperCase_def)

lemma nat36_1000: "nat36 1000 = ''rs''"
  by (simp add: nat36.simps[of 1000] nat36.simps[of 27] digit36_def)

lemma toString36_1000: "toString36 1000 = ''rs''"
  unfolding toString36_def by (simp add: nat36_1000)

lemma generateOrderCode_half: "generateOrderCode 1000 ''0.i'' = ''GM-RS-I''"
  unfolding generateOrderCode_def toString36_1000
  by (simp add: substring_def toUpperCase_def upperChar_def)

lemma getRandomPixKey_seed: "getRandomPixKey [seed_key 0] (1 / 2) = Some (seed_key 0)"
  by (simp add: getRandomPixKey_def seed_key_def)

lemma post_payment_example:
  "post_payment (initial_state 0) (cart (it # its) t) (draws u 1000 ''0.i'' c e) =
     Inr (\<lparr>rs_id = u, rs_code = ''GM-RS-I'', rs_status = Pending, rs_expiresAt = e + 1800000,
            rs_pix_key = ''a9d156cf-2e35-4728-b5de-5bd3191f0485'', rs_pix_type = ''cpf'',
            rs_pix_name = ''Empresa LTDA'', rs_total = t\<rparr>,
          (initial_state 0)\<lparr>orders :=
            [\<lparr>o_id = u, o_code = ''GM-RS-I'',
              o_customer = \<lparr>cu_name = ''Ana'', cu_email = ''ana@example.com'',
                             cu_cpf = ''12345678909'', cu_phone = ''11912345678''\<rparr>,
              o_items = map normalize_item (it # its), o_total = t,
              o_pixKey = snapshot_of (seed_key 0), o_status = Pending,
              o_createdAt = c, o_expiresAt = e + 1800000, o_paidAt = None\<rparr>]\<rparr>)"
  by (simp add: post_payment_def cart_def draws_def ana_def build_order_def Let_def
      generateOrderCode_half stripNonDigits_def snapshot_of_def
      getRandomPixKey_seed[unfolded seed_key_def] initial_state_def seed_key_def)

text \<open>
  Claim C3, as the code has it. With a customer whose name, email and national id are
  non-empty, a non-empty cart, an active key and a random draw in \<open>[0, 1)\<close>, the call
  succeeds and appends a pending order whose key snapshot is copied from an active key of
  the registry. \<^verbatim>\<open>createdAt\<close> is the clock read by \<^verbatim>\<open>new Date()\<close>; \<^verbatim>\<open>expiresAt\<close> is the clock
  read afterwards by \<^verbatim>\<open>Date.now()\<close> plus 30 minutes, so the two differ by 30 minutes plus
  the advance of the clock between the two reads.
\<close>

theorem post_payment_pending:
  assumes "pr_customer req = Some cust"
    and "ci_name cust \<noteq> []" and "ci_email cust \<noteq> []" and "ci_cpf cust \<noteq> []"
    and "pr_items req \<noteq> []"
    and "\<exists>k\<in>set (pixKeys s). pk_active k"
    and "0 \<le> pe_keyRandom env" and "pe_keyRandom env < 1"
  shows "\<exists>resp ord k.
           post_payment s req env = Inr (resp, s\<lparr>orders := orders s @ [ord]\<rparr>)
         \<and> o_status ord = Pending \<and> rs_status resp = Pending
         \<and> o_createdAt ord = pe_createdNow env
         \<and> o_expiresAt ord = pe_expiresNow env + 1800000
         \<and> rs_expiresAt resp = o_expiresAt ord
         \<and> o_expiresAt ord - o_createdAt ord = 1800000 + (pe_expiresNow env - pe_createdNow env)
         \<and> k \<in> set (pixKeys s) \<and> pk_active k
         \<and> o_pixKey ord = snapshot_of k
         \<and> rs_pix_key resp = pk_key k \<and> rs_pix_type resp = pk_type k \<and> rs_pix_name resp = pk_name k"
proof -
  from getRandomPixKey_some[OF assms(6-8)]
  obtain k where k: "getRandomPixKey (pixKeys s) (pe_keyRandom env) = Some k" ..
  from getRandomPixKey_active[OF k] have act: "k \<in> set (pixKeys s)" "pk_active k" by simp_all
  let ?ord = "build_order req cust k env"
  from assms(1-5) k
  have "post_payment s req env =
          Inr (\<lparr>rs_id = o_id ?ord, rs_code = o_code ?ord, rs_status = o_status ?ord,
                 rs_expiresAt = o_expiresAt ?ord, rs_pix_key = pk_key k,
                 rs_pix_type = pk_type k, rs_pix_name = pk_name k, rs_total = o_total ?ord\<rparr>,
               s\<lparr>orders := orders s @ [?ord]\<rparr>)"
    by (simp add: post_payment_def Let_def)
  with act show ?thesis
    by (intro exI[of _ "\<lparr>rs_id = o_id ?ord, rs_code = o_code ?ord, rs_status = o_status ?ord,
                 rs_expiresAt = o_expiresAt ?ord, rs_pix_key = pk_key k,
                 rs_pix_type = pk_type k, rs_pix_name = pk_name k, rs_total = o_total ?ord\<rparr>"]
          exI[of _ ?ord] exI[of _ k]) (simp add: build_order_def snapshot_of_def)
qed

text \<open>The start-up state, one ticket, both clock reads at 5000.\<close>

theorem post_payment_pending_witness:
  "\<exists>resp ord.
     post_payment (initial_state 0) (cart [item ''Pista'' (Some 100) None 2] 200)
         (draws ''o1'' 1000 ''0.i'' 5000 5000)
       = Inr (resp, (initial_state 0)\<lparr>orders := [ord]\<rparr>)
     \<and> o_status ord = Pending \<and> o_createdAt ord = 5000 \<and> o_expiresAt ord = 1805000
     \<and> o_pixKey ord = snapshot_of (seed_key 0)"
proof -
  from post_payment_pending
         [of "cart [item ''Pista'' (Some 100) None 2] 200" ana "initial_state 0"
             "draws ''o1'' 1000 ''0.i'' 5000 5000"]
  obtain resp ord k where
    "post_payment (initial_state 0) (cart [item ''Pista'' (Some 100) None 2] 200)
         (draws ''o1'' 1000 ''0.i'' 5000 5000)
       = Inr (resp, (initial_state 0)\<lparr>orders := [ord]\<rparr>)"
    "o_status ord = Pending" "o_createdAt ord = 5000" "o_expiresAt ord = 1805000"
    "k \<in> set (pixKeys (initial_state 0))" "o_pixKey ord = snapshot_of k"
    by (auto simp: cart_def item_def draws_def ana_def initial_state_def seed_key_def)
  then show ?thesis
    by (auto simp: initial_state_def)
qed

text \<open>
  Claim C3 as stated fails when the clock advances between the two reads: created at
  5000, the order expires at 1805001, one millisecond more than 30 minutes later.
\<close>

theorem expiry_after_clock_tick_counterexample:
  "o_createdAt (new_order (post_payment (initial_state 0)
       (cart [item ''Pista'' (Some 100) None 2] 200) (draws ''o1'' 1000 ''0.i'' 5000 5001))) = 5000
   \<and> o_expiresAt (new_order (post_payment (initial_state 0)
       (cart [item ''Pista'' (Some 100) None 2] 200) (draws ''o1'' 1000 ''0.i'' 5000 5001))) = 1805001
   \<and> o_expiresAt (new_order (post_payment (initial_state 0)
       (cart [item ''Pista'' (Some 100) None 2] 200) (draws ''o1'' 1000 ''0.i'' 5000 5001)))
     \<noteq> o_createdAt (new_order (post_payment (initial_state 0)
       (cart [item ''Pista'' (Some 100) None 2] 200) (draws ''o1'' 1000 ''0.i'' 5000 5001)))
       + 30 * 60 * 1000"
  by (simp add: post_payment_example new_order_def)

text \<open>
  Claim C6, as the code has it. For a line item that carries both field names, the stored
  unit price is the value under \<^verbatim>\<open>unitPrice\<close> unless that value is 0, and the value under
  \<^verbatim>\<open>unit_price\<close> when it is 0.
\<close>

theorem post_payment_unit_price:
  assumes "post_payment s req env = Inr (resp, s')"
    and "i < length (pr_items req)"
    and "ii_unitPrice (pr_items req ! i) = Some p"
    and "ii_unit_price (pr_items req ! i) = Some q"
  shows "length (o_items (last (orders s'))) = length (pr_items req)
       \<and> oi_unitPrice (o_items (last (orders s')) ! i) = Some (if p = 0 then q else p)"
proof -
  from post_payment_Inr[OF assms(1)] obtain cust pixKey where
    "s' = s\<lparr>orders := orders s @ [build_order req cust pixKey env]\<rparr>" by blast
  then have "o_items (last (orders s')) = map normalize_item (pr_items req)"
    by (simp add: build_order_def)
  with assms(2-4) show ?thesis
    by (simp add: normalize_item_def js_or_def)
qed

text \<open>A line item with 100 under the first name and 90 under the second.\<close>

theorem post_payment_unit_price_witness:
  "map oi_unitPrice (o_items (new_order (post_payment (initial_state 0)
       (cart [item ''Pista'' (Some 100) (Some 90) 2] 200) (draws ''o1'' 1000 ''0.i'' 5000 5000))))
     = [Some 100]"
  using post_payment_unit_price
      [of "initial_state 0" "cart [item ''Pista'' (Some 100) (Some 90) 2] 200"
          "draws ''o1'' 1000 ''0.i'' 5000 5000" _ _ 0 100 90, OF post_payment_example]
  unfolding new_order_def post_payment_example
  by (simp add: cart_def item_def)

text \<open>
  Claim C6 as stated fails at 0: a line item with 0 under \<^verbatim>\<open>unitPrice\<close> and 5 under
  \<^verbatim>\<open>unit_price\<close> is stored with unit price 5.
\<close>

theorem zero_unit_price_counterexample:
  "map oi_unitPrice (o_items (new_order (post_payment (initial_state 0)
       (cart [item ''Cortesia'' (Some 0) (Some 5) 1] 0) (draws ''o1'' 1000 ''0.i'' 5000 5000))))
     = [Some 5]
   \<and> ii_unitPrice (item ''Cortesia'' (Some 0) (Some 5) 1) = Some 0"
  by (simp add: post_payment_example new_order_def normalize_item_def js_or_def item_def)

text \<open>
  Claim C7, as the code has it. The order code is \<^verbatim>\<open>GM-\<close>, the upper-case base-36 numeral
  of the clock read by \<^verbatim>\<open>generateOrderCode\<close> (reading the numeral gives the clock back),
  \<^verbatim>\<open>-\<close>, and the upper-cased characters 2 to 5 of the base-36 rendering of the random
  number: at most 4 characters, and 4 exactly when the rendering has 6 characters or more.
\<close>

theorem post_payment_order_code:
  assumes "post_payment s req env = Inr (resp, s')"
  shows "o_code (last (orders s')) =
           ''GM-'' @ toUpperCase (toString36 (pe_codeNow env)) @ ''-''
             @ toUpperCase (take 4 (drop 2 (pe_codeRandom36 env)))
       \<and> rs_code resp = o_code (last (orders s'))
       \<and> read36 (toUpperCase (toString36 (pe_codeNow env))) = pe_codeNow env
       \<and> length (toUpperCase (take 4 (drop 2 (pe_codeRandom36 env))))
           = min 4 (length (pe_codeRandom36 env) - 2)"
proof -
  from post_payment_Inr[OF assms] obtain cust pixKey where
    s': "s' = s\<lparr>orders := orders s @ [build_order req cust pixKey env]\<rparr>"
    and resp: "rs_code resp = generateOrderCode (pe_codeNow env) (pe_codeRandom36 env)"
    by auto
  from s' have "o_code (last (orders s')) = generateOrderCode (pe_codeNow env) (pe_codeRandom36 env)"
    by (simp add: build_order_def)
  with resp show ?thesis
    by (simp add: generateOrderCode_def substring_def read36_toString36 length_toUpperCase)
qed

text \<open>The clock at 1000 reads \<^verbatim>\<open>RS\<close>.\<close>

theorem post_payment_order_code_witness:
  "o_code (new_order (post_payment (initial_state 0)
       (cart [item ''Pista'' (Some 100) None 2] 200) (draws ''o1'' 1000 ''0.i'' 5000 5000)))
     = ''GM-RS-I''
   \<and> read36 ''RS'' = 1000"
  using post_payment_order_code
      [of "initial_state 0" "cart [item ''Pista'' (Some 100) None 2] 200"
          "draws ''o1'' 1000 ''0.i'' 5000 5000", OF post_payment_example]
  unfolding new_order_def post_payment_example
  by (simp add: draws_def toString36_1000 toUpperCase_def upperChar_def)

text \<open>
  Claim C7 as stated fails for a random number with a short rendering: one half is
  \<^verbatim>\<open>0.i\<close> in base 36 and gives the one-character suffix \<^verbatim>\<open>I\<close>; zero is \<^verbatim>\<open>0\<close> and gives the
  empty suffix.
\<close>

theorem short_suffix_counterexample:
  "o_code (new_order (post_payment (initial_state 0)
       (cart [item ''Pista'' (Some 100) None 2] 200) (draws ''o1'' 1000 ''0.i'' 5000 5000)))
     = ''GM-RS-I''
   \<and> generateOrderCode 1000 ''0.i'' = ''GM-RS-I''
   \<and> length (toUpperCase (substring 2 6 ''0.i'')) = 1
   \<and> generateOrderCode 1000 ''0'' = ''GM-RS-''"
  unfolding new_order_def post_payment_example generateOrderCode_half
  unfolding generateOrderCode_def toString36_1000
  by (simp add: substring_def toUpperCase_def upperChar_def)

text \<open>
  Claim C10. A successful call stores and echoes the total of the request as it is.
  The same call with any other total \<open>t\<close> succeeds too and stores the same order with total
  \<open>t\<close>; hence some total makes the stored order disagree with the sum of its line items.
\<close>

theorem post_payment_total_verbatim:
  assumes "post_payment s req env = Inr (resp, s')"
  shows "o_total (last (orders s')) = pr_total req \<and> rs_total resp = pr_total req
       \<and> (\<exists>resp'. post_payment s (req\<lparr>pr_total := t\<rparr>) env
                      = Inr (resp', s\<lparr>orders := orders s @ [(last (orders s'))\<lparr>o_total := t\<rparr>]\<rparr>)
                  \<and> rs_total resp' = t)
       \<and> (\<exists>t' resp' ord'. post_payment s (req\<lparr>pr_total := t'\<rparr>) env
                      = Inr (resp', s\<lparr>orders := orders s @ [ord']\<rparr>)
                  \<and> o_items ord' = o_items (last (orders s'))
                  \<and> items_sum (o_items ord') \<noteq> Some (o_total ord'))"
proof -
  from post_payment_Inr[OF assms] obtain cust pixKey where
    cust: "pr_customer req = Some cust"
    and key: "getRandomPixKey (pixKeys s) (pe_keyRandom env) = Some pixKey"
    and s': "s' = s\<lparr>orders := orders s @ [build_order req cust pixKey env]\<rparr>"
    and resp: "rs_total resp = pr_total req"
    by auto
  from assms cust have valid: "ci_name cust \<noteq> []" "ci_email cust \<noteq> []" "ci_cpf cust \<noteq> []"
    "pr_items req \<noteq> []"
    by (auto simp: post_payment_def split: if_splits)
  have last: "last (orders s') = build_order req cust pixKey env"
    by (simp add: s')
  have any: "post_payment s (req\<lparr>pr_total := u\<rparr>) env =
          Inr (\<lparr>rs_id = pe_uuid env,
                 rs_code = generateOrderCode (pe_codeNow env) (pe_codeRandom36 env),
                 rs_status = Pending, rs_expiresAt = pe_expiresNow env + 30 * 60 * 1000,
                 rs_pix_key = pk_key pixKey, rs_pix_type = pk_type pixKey,
                 rs_pix_name = pk_name pixKey, rs_total = u\<rparr>,
               s\<lparr>orders := orders s @ [(build_order req cust pixKey env)\<lparr>o_total := u\<rparr>]\<rparr>)" for u
    using cust key valid by (simp add: post_payment_def Let_def build_order_def)
  have "\<exists>u. items_sum (o_items (build_order req cust pixKey env)) \<noteq> Some u"
  proof (cases "items_sum (o_items (build_order req cust pixKey env))")
    case None
    then show ?thesis by simp
  next
    case (Some a)
    then have "items_sum (o_items (build_order req cust pixKey env)) \<noteq> Some (a + 1)" by simp
    then show ?thesis ..
  qed
  then obtain u where u: "items_sum (o_items (build_order req cust pixKey env)) \<noteq> Some u" ..
  have c1: "o_total (last (orders s')) = pr_total req"
    by (simp add: last build_order_def)
  have c3: "\<exists>resp'. post_payment s (req\<lparr>pr_total := t\<rparr>) env
                      = Inr (resp', s\<lparr>orders := orders s @ [(last (orders s'))\<lparr>o_total := t\<rparr>]\<rparr>)
                  \<and> rs_total resp' = t"
    unfolding last any by simp
  have c4: "\<exists>t' resp' ord'. post_payment s (req\<lparr>pr_total := t'\<rparr>) env
                      = Inr (resp', s\<lparr>orders := orders s @ [ord']\<rparr>)
                  \<and> o_items ord' = o_items (last (orders s'))
                  \<and> items_sum (o_items ord') \<noteq> Some (o_total ord')"
  proof (intro exI conjI)
    show "post_payment s (req\<lparr>pr_total := u\<rparr>) env =
          Inr (\<lparr>rs_id = pe_uuid env,
                 rs_code = generateOrderCode (pe_codeNow env) (pe_codeRandom36 env),
                 rs_status = Pending, rs_expiresAt = pe_expiresNow env + 30 * 60 * 1000,
                 rs_pix_key = pk_key pixKey, rs_pix_type = pk_type pixKey,
                 rs_pix_name = pk_name pixKey, rs_total = u\<rparr>,
               s\<lparr>orders := orders s @ [(build_order req cust pixKey env)\<lparr>o_total := u\<rparr>]\<rparr>)"
      by (rule any)
    show "o_items ((build_order req cust pixKey env)\<lparr>o_total := u\<rparr>) = o_items (last (orders s'))"
      by (simp add: last)
    show "items_sum (o_items ((build_order req cust pixKey env)\<lparr>o_total := u\<rparr>))
            \<noteq> Some (o_total ((build_order req cust pixKey env)\<lparr>o_total := u\<rparr>))"
      using u by simp
  qed
  from c1 resp c3 c4 show ?thesis by blast
qed

text \<open>Two tickets at 100 each, stored with total 1.\<close>

theorem post_payment_total_verbatim_witness:
  "o_total (new_order (post_payment (initial_state 0)
       (cart [item ''Pista'' (Some 100) None 2] 1) (draws ''o1'' 1000 ''0.i'' 5000 5000))) = 1
   \<and> items_sum (o_items (new_order (post_payment (initial_state 0)
       (cart [item ''Pista'' (Some 100) None 2] 1) (draws ''o1'' 1000 ''0.i'' 5000 5000))))
     = Some 200"
  using post_payment_total_verbatim
      [of "initial_state 0" "cart [item ''Pista'' (Some 100) None 2] 1"
          "draws ''o1'' 1000 ''0.i'' 5000 5000", OF post_payment_example]
  unfolding new_order_def post_payment_example
  by (simp add: items_sum_def normalize_item_def js_or_def item_def)

subsection \<open>AnalyticsAggregator\<close>

lemma two_views_pageViews:
  "an_pageViews (analytics two_views) = [view_at ''v1'' 125100000, view_at ''v2'' 209700000]"
  by (simp add: two_views_def post_analytics_pageview_def view_req_def view_at_def
      initial_state_def empty_analytics_def Let_def)

lemma trafficByHour_spec:
  "trafficByHour getHours pvs now = rev (map (spec_bucket getHours pvs now) [0..<24])"
  unfolding trafficByHour_def spec_bucket_def Let_def
  by (simp del: upt_Suc add: mult.commute)

text \<open>
  Claim C4. An authorized dashboard call succeeds, and its \<^verbatim>\<open>trafficByHour\<close> is the list
  of the 24 buckets for \<open>i\<close> from 0 to 23, reversed: entry \<open>k\<close> of the result is bucket
  \<open>23 - k\<close>, so the bucket of \<open>i = 23\<close> comes first and that of the current hour last.
\<close>

theorem dashboard_trafficByHour:
  "\<exists>d. get_analytics_dashboard secret getHours s (Some secret) now = Inr d
       \<and> db_trafficByHour d
           = rev (map (spec_bucket getHours (an_pageViews (analytics s)) now) [0..<24])
       \<and> length (db_trafficByHour d) = 24
       \<and> (\<forall>k<24. db_trafficByHour d ! k
                    = spec_bucket getHours (an_pageViews (analytics s)) now (23 - k))"
proof -
  let ?pvs = "an_pageViews (analytics s)"
  let ?t = "trafficByHour getHours ?pvs now"
  have eq: "?t = rev (map (spec_bucket getHours ?pvs now) [0..<24])"
    by (rule trafficByHour_spec)
  have len: "length ?t = 24" by (simp add: eq del: upt_Suc)
  have nth: "?t ! k = spec_bucket getHours ?pvs now (23 - k)" if "k < 24" for k
  proof -
    have "?t ! k = map (spec_bucket getHours ?pvs now) [0..<24] ! (24 - Suc k)"
      unfolding eq using that by (subst rev_nth) (simp_all del: upt_Suc)
    also have "\<dots> = spec_bucket getHours ?pvs now (23 - k)"
      using that by (simp del: upt_Suc)
    finally show ?thesis .
  qed
  have "\<exists>d. get_analytics_dashboard secret getHours s (Some secret) now = Inr d
            \<and> db_trafficByHour d = ?t"
    by (simp add: get_analytics_dashboard_def Let_def)
  with eq len nth show ?thesis by (metis (no_types, lifting))
qed

text \<open>The count of a bucket is the number of positions of the list that qualify.\<close>

lemma spec_bucket_views:
  "tb_views (spec_bucket getHours pvs now i) =
     card {j. j < length pvs \<and> now - 86400000 < pv_timestamp (pvs ! j)
              \<and> getHours (pv_timestamp (pvs ! j)) = getHours (now - int i * 3600000)}"
  by (simp add: spec_bucket_def length_filter_conv_card)

text \<open>
  Two views at 10:45 and 10:15 of consecutive days, the dashboard read at 10:30 of the
  second day: the last bucket is hour 10 with both views, the first is hour 11.
\<close>

theorem dashboard_trafficByHour_witness:
  "db_trafficByHour (projr (get_analytics_dashboard ''segredo'' utcHours two_views
       (Some ''segredo'') 210600000)) ! 23
     = \<lparr>tb_hour = 10, tb_views = 2\<rparr>
   \<and> db_trafficByHour (projr (get_analytics_dashboard ''segredo'' utcHours two_views
       (Some ''segredo'') 210600000)) ! 0
     = \<lparr>tb_hour = 11, tb_views = 0\<rparr>"
proof -
  from dashboard_trafficByHour[of "''segredo''" utcHours two_views 210600000]
  obtain d where d: "get_analytics_dashboard ''segredo'' utcHours two_views (Some ''segredo'') 210600000 = Inr d"
    and nth: "\<forall>k<24. db_trafficByHour d ! k
                    = spec_bucket utcHours (an_pageViews (analytics two_views)) 210600000 (23 - k)"
    by blast
  from nth have "db_trafficByHour d ! 23 = spec_bucket utcHours (an_pageViews (analytics two_views)) 210600000 0"
    and "db_trafficByHour d ! 0 = spec_bucket utcHours (an_pageViews (analytics two_views)) 210600000 23"
    by simp_all
  then show ?thesis
    unfolding d two_views_pageViews
    by (simp add: spec_bucket_def utcHours_def view_at_def)
qed









subsection \<open>OrderLedger: snapshots, confirmation and lookup\<close>

lemma post_payment_seed:
  assumes "pixKeys s = [seed_key 0]"
  shows "post_payment s (cart (it # its) t) (draws u 1000 ''0.i'' c e) =
     Inr (\<lparr>rs_id = u, rs_code = ''GM-RS-I'', rs_status = Pending, rs_expiresAt = e + 1800000,
            rs_pix_key = ''a9d156cf-2e35-4728-b5de-5bd3191f0485'', rs_pix_type = ''cpf'',
            rs_pix_name = ''Empresa LTDA'', rs_total = t\<rparr>,
          s\<lparr>orders := orders s @ [example_order u (it # its) t c e]\<rparr>)"
  by (simp add: post_payment_def cart_def draws_def ana_def build_order_def Let_def assms
      generateOrderCode_half stripNonDigits_def snapshot_of_def example_order_def
      getRandomPixKey_seed[unfolded seed_key_def] seed_key_def)

lemma one_order_eq:
  "one_order = (initial_state 0)\<lparr>orders :=
      [example_order ''o1'' [item ''Pista'' (Some 100) None 2] 200 1000 1000]\<rparr>"
  unfolding one_order_def
  by (subst post_payment_seed) (simp_all add: initial_state_def)

lemma two_orders_eq:
  "two_orders = (initial_state 0)\<lparr>orders :=
      [example_order ''o1'' [item ''Pista'' (Some 100) None 2] 200 1000 1000,
       example_order ''o2'' [item ''Pista'' (Some 100) None 1] 100 1000 1000]\<rparr>"
  unfolding two_orders_def
  by (subst post_payment_seed) (simp_all add: one_order_eq initial_state_def)

lemma post_pix_keys_orders:
  "post_pix_keys s req uuid now = Inr (k, s') \<Longrightarrow> orders s' = orders s"
  by (auto simp: post_pix_keys_def Let_def split: if_splits)

lemma put_pix_key_orders:
  "put_pix_key s ident req now = Inr (k, s') \<Longrightarrow> orders s' = orders s"
  by (auto simp: put_pix_key_def Let_def split: option.splits)

lemma delete_pix_key_orders:
  "delete_pix_key s ident = Inr s' \<Longrightarrow> orders s' = orders s"
  by (auto simp: delete_pix_key_def split: option.splits)

lemma apply_registry_op_orders: "orders (apply_registry_op s op) = orders s"
proof (cases op)
  case (Add req uuid now)
  then show ?thesis
    by (cases "post_pix_keys s req uuid now") (auto dest: post_pix_keys_orders)
next
  case (Update ident req now)
  then show ?thesis
    by (cases "put_pix_key s ident req now") (auto dest: put_pix_key_orders)
next
  case (Remove ident)
  then show ?thesis
    by (cases "delete_pix_key s ident") (auto dest: delete_pix_key_orders)
qed

lemma foldl_registry_ops_orders: "orders (foldl apply_registry_op s ops) = orders s"
  by (induction ops arbitrary: s) (simp_all add: apply_registry_op_orders)

text \<open>
  Claim C8. The snapshot under \<^verbatim>\<open>order.pixKey\<close> is an object literal of four strings
  copied when the order is built, and no registry route writes to \<^verbatim>\<open>orders\<close>: the key
  snapshots of all orders are the same after an update, after a removal, and after any
  run of registry operations.
\<close>

theorem key_snapshot_frozen:
  "(put_pix_key s ident ureq now = Inr (k, s1) \<longrightarrow> map o_pixKey (orders s1) = map o_pixKey (orders s))
   \<and> (delete_pix_key s ident = Inr s2 \<longrightarrow> map o_pixKey (orders s2) = map o_pixKey (orders s))
   \<and> map o_pixKey (orders (foldl apply_registry_op s ops)) = map o_pixKey (orders s)"
  by (auto simp: foldl_registry_ops_orders dest: put_pix_key_orders delete_pix_key_orders)

text \<open>
  The key of the only order gets a new key-string, type, name and flag, then is removed:
  the order still holds the four strings of the seed key.
\<close>

theorem key_snapshot_frozen_witness:
  "map_sum id (map pk_key \<circ> pixKeys \<circ> snd) (put_pix_key one_order ''1'' retired 6000)
     = Inr [''outra-chave'']
   \<and> map_sum id (map o_pixKey \<circ> orders \<circ> snd) (put_pix_key one_order ''1'' retired 6000)
     = Inr [snapshot_of (seed_key 0)]
   \<and> map_sum id pixKeys (delete_pix_key one_order ''1'') = Inr []
   \<and> map_sum id (map o_pixKey \<circ> orders) (delete_pix_key one_order ''1'')
     = Inr [snapshot_of (seed_key 0)]
   \<and> map o_pixKey (orders (foldl apply_registry_op one_order
        [Update ''1'' retired 6000, Remove ''1'', Add (add_req ''k2'' ''email'' ''B'') ''u2'' 7000]))
     = [snapshot_of (seed_key 0)]"
proof -
  obtain k s1 where p: "put_pix_key one_order ''1'' retired 6000 = Inr (k, s1)"
    and k: "map pk_key (pixKeys s1) = [''outra-chave'']"
    by (simp add: put_pix_key_def one_order_eq initial_state_def seed_key_def merge_key_def
        retired_def Let_def)
  obtain s2 where d: "delete_pix_key one_order ''1'' = Inr s2" and e: "pixKeys s2 = []"
    by (simp add: delete_pix_key_def one_order_eq initial_state_def seed_key_def splice1_def)
  have o: "map o_pixKey (orders one_order) = [snapshot_of (seed_key 0)]"
    by (simp add: one_order_eq example_order_def)
  from key_snapshot_frozen
         [of one_order "''1''" retired 6000 k s1 s2
             "[Update ''1'' retired 6000, Remove ''1'', Add (add_req ''k2'' ''email'' ''B'') ''u2'' 7000]"]
    p d k e o
  show ?thesis by simp
qed

lemma findIndex_update:
  "findIndex P xs = Some i \<Longrightarrow> P v \<Longrightarrow> findIndex P (xs[i := v]) = Some i"
proof (induction xs arbitrary: i)
  case Nil
  then show ?case by simp
next
  case (Cons x xs)
  show ?case
  proof (cases "P x")
    case True
    with Cons.prems show ?thesis by simp
  next
    case False
    with Cons.prems obtain j where j: "findIndex P xs = Some j" "i = Suc j" by auto
    from Cons.IH[OF j(1) Cons.prems(2)] False j(2) show ?thesis by simp
  qed
qed

lemma find_Some_findIndex:
  assumes "find P xs = Some x"
  shows "\<exists>i. findIndex P xs = Some i \<and> xs ! i = x"
  using assms by (auto simp: find_findIndex)

lemma findIndex_same:
  assumes "findIndex P xs = Some i" and "findIndex Q xs = Some j"
    and "Q (xs ! i)" and "P (xs ! j)"
  shows "i = j"
proof -
  from findIndex_Some[OF assms(1)] assms(4) have "\<not> j < i" by blast
  moreover from findIndex_Some[OF assms(2)] assms(3) have "\<not> i < j" by blast
  ultimately show ?thesis by simp
qed

lemma matches_paid: "matches x (paid now ord) = matches x ord"
  by (simp add: matches_def paid_def)

text \<open>
  Claim C9, as the code has it. Both lookups take the first stored order whose id or code
  equals the path value. For an order that is the first match of its own id and the
  first match of its own code, confirming by either succeeds, and reading by either
  afterwards gives one view, that of the order marked paid.
\<close>

theorem confirm_then_get:
  assumes "find (matches (o_id ord)) (orders s) = Some ord"
    and "find (matches (o_code ord)) (orders s) = Some ord"
    and "x = o_id ord \<or> x = o_code ord"
  shows "\<exists>resp s'. post_payment_confirm s x now = Inr (resp, s')
           \<and> cf_status resp = Paid \<and> cf_paidAt resp = Some now
           \<and> get_order s' (o_id ord) = Inr (view_of (paid now ord))
           \<and> get_order s' (o_code ord) = Inr (view_of (paid now ord))
           \<and> ov_status (view_of (paid now ord)) = Paid"
proof -
  from find_Some_findIndex[OF assms(1)] obtain i where
    i: "findIndex (matches (o_id ord)) (orders s) = Some i" "orders s ! i = ord" by blast
  from find_Some_findIndex[OF assms(2)] obtain j where
    j: "findIndex (matches (o_code ord)) (orders s) = Some j" "orders s ! j = ord" by blast
  have "i = j"
    by (rule findIndex_same[OF i(1) j(1)]) (simp_all add: i(2) j(2) matches_def)
  with i j assms(3) have x: "findIndex (matches x) (orders s) = Some i" by auto
  let ?os = "(orders s)[i := paid now ord]"
  have conf: "post_payment_confirm s x now =
          Inr (\<lparr>cf_id = o_id ord, cf_code = o_code ord, cf_status = Paid, cf_paidAt = Some now\<rparr>,
               s\<lparr>orders := ?os\<rparr>)"
    by (simp add: post_payment_confirm_def x i(2) Let_def paid_def)
  have "findIndex (matches (o_id ord)) ?os = Some i"
    by (rule findIndex_update[OF i(1)]) (simp add: matches_def paid_def)
  moreover have "findIndex (matches (o_code ord)) ?os = Some i"
    by (rule findIndex_update[OF j(1)[folded \<open>i = j\<close>]]) (simp add: matches_def paid_def)
  moreover have "i < length (orders s)" using findIndex_Some[OF i(1)] by simp
  ultimately have "find (matches (o_id ord)) ?os = Some (paid now ord)"
    and "find (matches (o_code ord)) ?os = Some (paid now ord)"
    by (simp_all add: find_findIndex)
  then have "get_order (s\<lparr>orders := ?os\<rparr>) (o_id ord) = Inr (view_of (paid now ord))"
    and "get_order (s\<lparr>orders := ?os\<rparr>) (o_code ord) = Inr (view_of (paid now ord))"
    by (simp_all add: get_order_def)
  with conf show ?thesis
    by (simp add: view_of_def paid_def)
qed

text \<open>One order in the ledger, confirmed by its code.\<close>

theorem confirm_then_get_witness:
  "map_sum id fst (post_payment_confirm one_order ''GM-RS-I'' 9000)
     = Inr \<lparr>cf_id = ''o1'', cf_code = ''GM-RS-I'', cf_status = Paid, cf_paidAt = Some 9000\<rparr>
   \<and> map_sum id ov_status
        (get_order (snd (projr (post_payment_confirm one_order ''GM-RS-I'' 9000))) ''o1'')
     = Inr Paid
   \<and> get_order (snd (projr (post_payment_confirm one_order ''GM-RS-I'' 9000))) ''GM-RS-I''
     = get_order (snd (projr (post_payment_confirm one_order ''GM-RS-I'' 9000))) ''o1''"
proof -
  let ?ord = "example_order ''o1'' [item ''Pista'' (Some 100) None 2] 200 1000 1000"
  have id: "o_id ?ord = ''o1''" and code: "o_code ?ord = ''GM-RS-I''"
    by (simp_all add: example_order_def)
  have f1: "find (matches (o_id ?ord)) (orders one_order) = Some ?ord"
    and f2: "find (matches (o_code ?ord)) (orders one_order) = Some ?ord"
    by (simp_all add: one_order_eq matches_def example_order_def)
  from confirm_then_get[OF f1 f2, of "''GM-RS-I''" 9000]
  obtain resp s' where
    c: "post_payment_confirm one_order ''GM-RS-I'' 9000 = Inr (resp, s')"
    and r: "cf_status resp = Paid" "cf_paidAt resp = Some 9000"
    and g: "get_order s' ''o1'' = Inr (view_of (paid 9000 ?ord))"
       "get_order s' ''GM-RS-I'' = Inr (view_of (paid 9000 ?ord))"
    unfolding id code by auto
  from c have "cf_id resp = ''o1''" "cf_code resp = ''GM-RS-I''"
    by (auto simp: post_payment_confirm_def one_order_eq matches_def example_order_def Let_def)
  with r have "resp = \<lparr>cf_id = ''o1'', cf_code = ''GM-RS-I'', cf_status = Paid, cf_paidAt = Some 9000\<rparr>"
    by simp
  with c g show ?thesis
    by (simp add: view_of_def paid_def)
qed

text \<open>
  Claim C9 as stated fails for the second of two orders that share a code: confirming by
  that code marks the first order, reading by the id of the second shows it pending, and
  reading by the code shows the first order.
\<close>

theorem confirm_shared_code_counterexample:
  "map o_id (orders two_orders) = [''o1'', ''o2'']
   \<and> map o_code (orders two_orders) = [''GM-RS-I'', ''GM-RS-I'']
   \<and> map_sum id (cf_id \<circ> fst) (post_payment_confirm two_orders ''GM-RS-I'' 9000) = Inr ''o1''
   \<and> map_sum id ov_status
        (get_order (snd (projr (post_payment_confirm two_orders ''GM-RS-I'' 9000))) ''o2'')
     = Inr Pending
   \<and> map_sum id ov_id
        (get_order (snd (projr (post_payment_confirm two_orders ''GM-RS-I'' 9000))) ''GM-RS-I'')
     = Inr ''o1''
   \<and> get_order (snd (projr (post_payment_confirm two_orders ''GM-RS-I'' 9000))) ''o2''
     \<noteq> get_order (snd (projr (post_payment_confirm two_orders ''GM-RS-I'' 9000))) ''GM-RS-I''"
  by (simp add: two_orders_eq post_payment_confirm_def get_order_def matches_def
      example_order_def view_of_def Let_def)

end
